theory Spec2Isabelle
  imports Main
begin

section \<open>Director web API: shared response types\<close>

text \<open>
  \<^verbatim>\<open>server_structs.SimpleApiResp{Status, Msg}\<close> is the JSON body of every failure
  response and of the toggle's success response.  A message built by
  \<^verbatim>\<open>fmt.Sprint(text, reason)\<close> keeps the reason as a value instead of rendering
  it, because the string constants behind \<^verbatim>\<open>disabledReason\<close> are declared
  in another file of the package.
\<close>

datatype respStatus = RespOK | RespFailed

text \<open>
  Modelled from the spec: the type \<^verbatim>\<open>disabledReason\<close> is declared in another file
  of the director package; the handlers use its constants \<^verbatim>\<open>tempDisabled\<close>,
  \<^verbatim>\<open>permDisabeld\<close> and \<^verbatim>\<open>tempEnabled\<close>.  The spec (section 3) gives the reason
  of an effective availability as an override state or \<^verbatim>\<open>static\<close>, the override
  states being \<^verbatim>\<open>none\<close>, \<^verbatim>\<open>tempDisabled\<close>, \<^verbatim>\<open>permDisabled\<close> and \<^verbatim>\<open>tempEnabled\<close>.
  \<open>noReason\<close> is \<^verbatim>\<open>none\<close> and \<open>staticReason\<close> is \<^verbatim>\<open>static\<close>.
\<close>

datatype disabledReason =
    noReason
  | tempDisabled
  | permDisabeld
  | tempEnabled
  | staticReason

text \<open>
  The errors \<^verbatim>\<open>Query\<close> can return.  The three sentinels are compared by
  identity in the handler; any other error is \<open>OtherError\<close> with its text.
\<close>

datatype queryError =
    NoPrefixMatchError
  | ParameterError
  | InsufficientResError
  | OtherError string

text \<open>
  \<open>Text s\<close> is a literal or concatenated string, \<open>Sprint s r\<close> is
  \<^verbatim>\<open>fmt.Sprint(s, r)\<close> and \<open>ErrorText e s\<close> is \<^verbatim>\<open>e.Error() + s\<close>.
\<close>

datatype message =
    Text string
  | Sprint string disabledReason
  | ErrorText queryError string

record SimpleApiResp =
  Status :: respStatus
  Msg :: message

type_synonym simpleResponse = "nat \<times> SimpleApiResp"

text \<open>
  \<^verbatim>\<open>strings.HasSuffix\<close> of the Go standard library:
  \<^verbatim>\<open>len(s) >= len(suffix) && s[len(s)-len(suffix):] == suffix\<close>.
\<close>

definition HasSuffix :: "string \<Rightarrow> string \<Rightarrow> bool" where
  "HasSuffix s suffix =
     (length s \<ge> length suffix \<and> drop (length s - length suffix) s = suffix)"

text \<open>
  The string of a reason.  The reason \<^verbatim>\<open>none\<close> of a server that is not disabled
  is the empty string; the strings of the other reasons are declared in
  another file and given by \<open>reasonText\<close>.
\<close>

definition reasonString :: "(disabledReason \<Rightarrow> string) \<Rightarrow> disabledReason \<Rightarrow> string" where
  "reasonString reasonText r = (if r = noReason then [] else reasonText r)"

text \<open>
  The text of a message as the Go string, given the strings behind the reasons
  (\<open>reasonText\<close>) and behind the errors (\<open>errorText\<close>).
\<close>

fun messageText :: "(disabledReason \<Rightarrow> string) \<Rightarrow> (queryError \<Rightarrow> string) \<Rightarrow> message \<Rightarrow> string" where
  "messageText reasonText errorText (Text s) = s"
| "messageText reasonText errorText (Sprint s r) = s @ reasonString reasonText r"
| "messageText reasonText errorText (ErrorText e s) = errorText e @ s"

definition StatusOK :: nat where "StatusOK = 200"
definition StatusBadRequest :: nat where "StatusBadRequest = 400"
definition StatusNotFound :: nat where "StatusNotFound = 404"
definition StatusInternalServerError :: nat where "StatusInternalServerError = 500"

section \<open>The server override registry\<close>

text \<open>
  The package-level map \<^verbatim>\<open>disabledServers\<close> from server URL to
  \<^verbatim>\<open>disabledReason\<close>.  The handler mutates it in place; the model returns the
  new map.
\<close>

type_synonym disabledServers = "string \<rightharpoonup> disabledReason"

text \<open>
  Modelled from the spec: \<^verbatim>\<open>isServerDisabled\<close> is called by the handlers but
  defined in another file of the director package.  The spec (section 3,
  EffectiveAvailability) reads: if an override entry exists, \<^verbatim>\<open>tempEnabled\<close>
  reports disabled = false and every other override entry reports
  disabled = true; if no override entry exists, fall back to the static
  per-server configuration (disabled = true, reason = static if statically
  filtered, else disabled = false, reason = none).  The static filter
  configuration is the parameter \<open>IsStaticallyFiltered\<close>.
\<close>

definition isServerDisabled ::
  "(string \<Rightarrow> bool) \<Rightarrow> disabledServers \<Rightarrow> string \<Rightarrow> bool \<times> disabledReason" where
  "isServerDisabled IsStaticallyFiltered ds serverId =
     (case ds serverId of
        Some r \<Rightarrow> if r = tempEnabled then (False, tempEnabled) else (True, r)
      | None \<Rightarrow> if IsStaticallyFiltered serverId then (True, staticReason)
                else (False, noReason))"

record patchServerRequest =
  Disabled :: bool

text \<open>
  \<^verbatim>\<open>handleDisableServerToggle\<close>.  Inputs: the static filter configuration,
  the value of the query parameter \<^verbatim>\<open>serverUrl\<close>, the outcome of
  \<^verbatim>\<open>ctx.ShouldBindJSON(&req)\<close> (\<open>Inl\<close> the rendered bind error, \<open>Inr\<close> the bound
  request) and the override map.  Output: the response written and the map
  after the call.
\<close>

definition handleDisableServerToggle ::
  "(string \<Rightarrow> bool) \<Rightarrow> string \<Rightarrow> string + patchServerRequest \<Rightarrow> disabledServers
     \<Rightarrow> simpleResponse \<times> disabledServers" where
  "handleDisableServerToggle IsStaticallyFiltered serverUrl bound ds =
     (if serverUrl = [] then
        ((StatusBadRequest,
          \<lparr>Status = RespFailed, Msg = Text (CHR 0x27 # ''serverUrl' is a required query parameter'')\<rparr>), ds)
      else case bound of
        Inl err \<Rightarrow>
          ((StatusBadRequest,
            \<lparr>Status = RespFailed, Msg = Text (''Failed to bind reqeust body: '' @ err)\<rparr>), ds)
      | Inr req \<Rightarrow>
          if \<not> Disabled req \<and> ds serverUrl = None then
            ((StatusBadRequest,
              \<lparr>Status = RespFailed,
               Msg = Text ''Can't enable a server that is not disabled or does not exist''\<rparr>), ds)
          else
            (case isServerDisabled IsStaticallyFiltered ds serverUrl of
               (isDisabled, reason) \<Rightarrow>
                 if isDisabled \<and> Disabled req then
                   ((StatusBadRequest,
                     \<lparr>Status = RespFailed,
                      Msg = Sprint ''Can't disable a server that already has been disabled with reason: '' reason\<rparr>),
                    ds)
                 else if \<not> isDisabled \<and> \<not> Disabled req then
                   ((StatusBadRequest,
                     \<lparr>Status = RespFailed,
                      Msg = Sprint ''Can't enable a server that already has been enabled with reason: '' reason\<rparr>),
                    ds)
                 else
                   ((StatusOK, \<lparr>Status = RespOK, Msg = Text ''success''\<rparr>),
                    (if Disabled req then
                       (if reason = tempEnabled then ds(serverUrl \<mapsto> permDisabeld)
                        else ds(serverUrl \<mapsto> tempDisabled))
                     else
                       (if reason = tempDisabled then ds(serverUrl := None)
                        else if reason = permDisabeld then ds(serverUrl \<mapsto> tempEnabled)
                        else ds)))))"


text \<open>
  The section 4.1 transition table in the spec's words, for comparison with the
  handler: the four current effective states, the result of a request
  (\<open>True\<close> = disable, \<open>False\<close> = enable), and the row a server is in.  A
  statically filtered server with no override entry is read as the row
  \<^verbatim>\<open>permDisabled (static)\<close>.
\<close>

datatype tableState = stEnabled | stTempDisabled | stPermDisabled | stTempEnabled

datatype tableResult = ConflictError | Transition "disabledReason option"

fun specToggle :: "tableState \<Rightarrow> bool \<Rightarrow> tableResult" where
  "specToggle stEnabled True = Transition (Some tempDisabled)"
| "specToggle stEnabled False = ConflictError"
| "specToggle stTempDisabled True = ConflictError"
| "specToggle stTempDisabled False = Transition None"
| "specToggle stPermDisabled True = ConflictError"
| "specToggle stPermDisabled False = Transition (Some tempEnabled)"
| "specToggle stTempEnabled True = Transition (Some permDisabeld)"
| "specToggle stTempEnabled False = ConflictError"


text \<open>
  What a caller observes of a table result: a conflict is a 400 failure
  response with the map untouched, a transition is the 200 success response
  with the server's entry set (or removed, for \<open>None\<close>).
\<close>

fun observed ::
  "disabledServers \<Rightarrow> string \<Rightarrow> tableResult \<Rightarrow> simpleResponse \<times> disabledServers \<Rightarrow> bool" where
  "observed ds serverId ConflictError (resp, ds') =
     (fst resp = StatusBadRequest \<and> Status (snd resp) = RespFailed \<and> ds' = ds)"
| "observed ds serverId (Transition e) (resp, ds') =
     (fst resp = StatusOK \<and> Status (snd resp) = RespOK \<and> ds' = ds(serverId := e))"

text \<open>
  A Toggle request violates a precondition of the table when it asks to
  disable a server that is effectively disabled or to enable one that is
  effectively enabled.
\<close>

definition violatesPrecondition ::
  "(string \<Rightarrow> bool) \<Rightarrow> disabledServers \<Rightarrow> string \<Rightarrow> bool \<Rightarrow> bool" where
  "violatesPrecondition IsStaticallyFiltered ds serverId disable =
     (fst (isServerDisabled IsStaticallyFiltered ds serverId) = disable)"

text \<open>
  A message carries a reason when its text ends with the string of that
  reason, as the texts built by \<^verbatim>\<open>fmt.Sprint(text, reason)\<close> do.
\<close>

definition carriesReason ::
  "(disabledReason \<Rightarrow> string) \<Rightarrow> (queryError \<Rightarrow> string) \<Rightarrow> message \<Rightarrow> disabledReason \<Rightarrow> bool" where
  "carriesReason reasonText errorText m r =
     HasSuffix (messageText reasonText errorText m) (reasonString reasonText r)"

text \<open>
  A sequence of Toggle requests, each a server URL with the outcome of binding
  the body, run against the override map one after the other.
\<close>

fun runToggles ::
  "(string \<Rightarrow> bool) \<Rightarrow> (string \<times> (string + patchServerRequest)) list \<Rightarrow> disabledServers
     \<Rightarrow> disabledServers" where
  "runToggles IsStaticallyFiltered [] ds = ds"
| "runToggles IsStaticallyFiltered ((serverUrl, bound) # reqs) ds =
     runToggles IsStaticallyFiltered reqs
       (snd (handleDisableServerToggle IsStaticallyFiltered serverUrl bound ds))"

text \<open>One disable request followed by one enable request for the same server.\<close>

definition toggleCycle :: "(string \<Rightarrow> bool) \<Rightarrow> string \<Rightarrow> disabledServers \<Rightarrow> disabledServers" where
  "toggleCycle IsStaticallyFiltered serverUrl ds =
     snd (handleDisableServerToggle IsStaticallyFiltered serverUrl (Inr \<lparr>Disabled = False\<rparr>)
       (snd (handleDisableServerToggle IsStaticallyFiltered serverUrl (Inr \<lparr>Disabled = True\<rparr>) ds)))"

section \<open>Object availability: \<^verbatim>\<open>queryOrigins\<close>\<close>

subsection \<open>\<^verbatim>\<open>path.Clean\<close> of the Go standard library\<close>

text \<open>
  \<^verbatim>\<open>path.Clean\<close> reads the path left to right and writes into a buffer
  \<open>out\<close> (the \<^verbatim>\<open>lazybuf\<close>; its write index \<open>w\<close> is \<open>length out\<close>).
  \<open>backtrack\<close> is the inner loop of the \<^verbatim>\<open>..\<close> case, run after \<^verbatim>\<open>out.w--\<close>:
  \<^verbatim>\<open>for out.w > dotdot && out.index(out.w) != '/' { out.w-- }\<close>.
\<close>

function backtrack :: "nat \<Rightarrow> string \<Rightarrow> nat \<Rightarrow> nat" where
  "backtrack dotdot buf w =
     (if w > dotdot \<and> buf ! w \<noteq> CHR ''/'' then backtrack dotdot buf (w - 1) else w)"
  by pat_completeness auto
termination
  by (relation "measure (\<lambda>(dotdot, buf, w). w)") auto

declare backtrack.simps [simp del]

text \<open>
  The main loop \<^verbatim>\<open>for r < n\<close>; the second argument is what is left of the
  path from index \<open>r\<close> on.  Its four cases: an empty element, a \<^verbatim>\<open>.\<close>
  element, a \<^verbatim>\<open>..\<close> element, a real element (copied up to the next slash).
\<close>

function cleanLoop :: "bool \<Rightarrow> string \<Rightarrow> string \<Rightarrow> nat \<Rightarrow> string" where
  "cleanLoop rooted [] out dotdot = out"
| "cleanLoop rooted (c # cs) out dotdot =
     (if c = CHR ''/'' then cleanLoop rooted cs out dotdot
      else if c = CHR ''.'' \<and> (cs = [] \<or> hd cs = CHR ''/'') then cleanLoop rooted cs out dotdot
      else if c = CHR ''.'' \<and> hd cs = CHR ''.'' \<and> (tl cs = [] \<or> hd (tl cs) = CHR ''/'') then
        (if length out > dotdot then
           cleanLoop rooted (tl cs) (take (backtrack dotdot out (length out - 1)) out) dotdot
         else if \<not> rooted then
           cleanLoop rooted (tl cs) ((if length out > 0 then out @ ''/'' else out) @ ''..'')
             (length ((if length out > 0 then out @ ''/'' else out) @ ''..''))
         else cleanLoop rooted (tl cs) out dotdot)
      else
        cleanLoop rooted (dropWhile (\<lambda>x. x \<noteq> CHR ''/'') (c # cs))
          ((if rooted \<and> length out \<noteq> 1 \<or> \<not> rooted \<and> length out \<noteq> 0 then out @ ''/'' else out)
             @ takeWhile (\<lambda>x. x \<noteq> CHR ''/'') (c # cs))
          dotdot)"
  by pat_completeness auto
termination
  by (relation "measure (\<lambda>(rooted, p, out, dotdot). length p)")
     (auto simp: le_imp_less_Suc length_dropWhile_le)

definition Clean :: "string \<Rightarrow> string" where
  "Clean path =
     (if path = [] then ''.''
      else
        (let rooted = (hd path = CHR ''/'');
             out = (if rooted then cleanLoop rooted (tl path) ''/'' 1
                    else cleanLoop rooted path [] 0)
         in if length out = 0 then ''.'' else out))"

text \<open>Invariant of the buffer in \<open>cleanLoop\<close>, used in the proofs below.\<close>

fun noDoubleSlash :: "string \<Rightarrow> bool" where
  "noDoubleSlash [] = True"
| "noDoubleSlash [a] = True"
| "noDoubleSlash (a # b # xs) = (\<not> (a = CHR ''/'' \<and> b = CHR ''/'') \<and> noDoubleSlash (b # xs))"

definition cleanInv :: "bool \<Rightarrow> string \<Rightarrow> nat \<Rightarrow> bool" where
  "cleanInv rooted out dotdot =
     (dotdot \<le> length out \<and> noDoubleSlash out \<and>
      (if rooted then dotdot = 1 \<and> hd out = CHR ''/'' \<and> (length out > 1 \<longrightarrow> last out \<noteq> CHR ''/'')
       else (out \<noteq> [] \<longrightarrow> last out \<noteq> CHR ''/'') \<and> (dotdot > 0 \<longrightarrow> out ! (dotdot - 1) \<noteq> CHR ''/'')))"

subsection \<open>The handler\<close>

record statRequest =
  MinResponses :: int
  MaxResponses :: int

text \<open>
  \<^verbatim>\<open>statResponse\<close>; the element type \<^verbatim>\<open>*objectMetadata\<close> is declared elsewhere
  and stays a type parameter.
\<close>

record 'm statResponse =
  OK :: bool
  Message :: string
  Metadata :: "'m list"

datatype 'm queryBody =
    Simple SimpleApiResp
  | Stat "'m statResponse"

text \<open>
  What the handler does that a caller can see, in order: the call of
  \<^verbatim>\<open>NewObjectStat().Query\<close> with its arguments and every \<^verbatim>\<open>ctx.JSON\<close> write.
  A handler either returns or panics (calling a method on a nil \<^verbatim>\<open>error\<close>
  is a runtime panic).  Log calls are left out.
\<close>

datatype 'm queryEvent =
    CallQuery string int int
  | WriteJSON nat "'m queryBody"

datatype outcome = Returned | Panicked

text \<open>
  Lines 299 to 306 of the handler: what runs after the \<^verbatim>\<open>if err != nil\<close>
  block when that block did not return.  \<open>evs\<close> are the events so far.
\<close>

definition queryOriginsTail ::
  "'m queryEvent list \<Rightarrow> 'm list \<Rightarrow> string \<Rightarrow> queryError option
     \<Rightarrow> 'm queryEvent list \<times> outcome" where
  "queryOriginsTail evs meta msg err =
     (if length meta < 1 then
        (case err of
           None \<Rightarrow> (evs, Panicked)
         | Some e \<Rightarrow>
             (evs @
              [WriteJSON StatusNotFound
                 (Simple \<lparr>Status = RespFailed,
                    Msg = ErrorText e
                      '' If no object is available, please check if the object is in a public namespace.''\<rparr>),
               WriteJSON StatusOK (Stat \<lparr>OK = True, Message = msg, Metadata = meta\<rparr>)],
              Returned))
      else
        (evs @ [WriteJSON StatusOK (Stat \<lparr>OK = True, Message = msg, Metadata = meta\<rparr>)],
         Returned))"

text \<open>
  \<^verbatim>\<open>queryOrigins\<close>.  Inputs: the route parameter \<^verbatim>\<open>path\<close>, the outcome of
  \<^verbatim>\<open>ctx.ShouldBindQuery\<close> (\<open>None\<close> when it fails) and the \<^verbatim>\<open>Query\<close> operation,
  which is defined elsewhere and returns the metadata, a message and an
  optional error.
\<close>

definition queryOrigins ::
  "string \<Rightarrow> statRequest option
     \<Rightarrow> (string \<Rightarrow> int \<Rightarrow> int \<Rightarrow> 'm list \<times> string \<times> queryError option)
     \<Rightarrow> 'm queryEvent list \<times> outcome" where
  "queryOrigins pathParam bound Query =
     (let path = Clean pathParam in
      if path = [] \<or> HasSuffix path ''/'' then
        ([WriteJSON StatusBadRequest
            (Simple \<lparr>Status = RespFailed,
               Msg = Text (''Path should not be empty or ended with slash '' @ [CHR 0x27, CHR ''/'', CHR 0x27])\<rparr>)],
         Returned)
      else case bound of
        None \<Rightarrow>
          ([WriteJSON StatusBadRequest
              (Simple \<lparr>Status = RespFailed, Msg = Text ''Invalid query parameters''\<rparr>)],
           Returned)
      | Some queryParams \<Rightarrow>
          (case Query path (MinResponses queryParams) (MaxResponses queryParams) of
             (meta, msg, err) \<Rightarrow>
               (let called = [CallQuery path (MinResponses queryParams) (MaxResponses queryParams)] in
                case err of
                  None \<Rightarrow> queryOriginsTail called meta msg err
                | Some e \<Rightarrow>
                    if e = NoPrefixMatchError then
                      (called @
                       [WriteJSON StatusNotFound
                          (Simple \<lparr>Status = RespFailed, Msg = ErrorText e []\<rparr>)],
                       Returned)
                    else if e = ParameterError then
                      (called @
                       [WriteJSON StatusBadRequest
                          (Simple \<lparr>Status = RespFailed, Msg = ErrorText e []\<rparr>)],
                       Returned)
                    else if e = InsufficientResError then
                      (if length meta < 1 then
                         (called @
                          [WriteJSON StatusNotFound
                             (Simple \<lparr>Status = RespFailed,
                                Msg = Text (msg @
                                  '' If no object is available, please check if the object is in a public namespace.'')\<rparr>)],
                          Returned)
                       else
                         queryOriginsTail
                           (called @
                            [WriteJSON StatusOK (Stat \<lparr>OK = False, Message = msg, Metadata = meta\<rparr>)])
                           meta msg err)
                    else
                      (called @
                       [WriteJSON StatusInternalServerError
                          (Simple \<lparr>Status = RespFailed, Msg = ErrorText e []\<rparr>)],
                       Returned))))"


section \<open>The server listing: \<^verbatim>\<open>listServers\<close>\<close>

text \<open>
  Modelled from the spec: the \<^verbatim>\<open>server_structs\<close> package (the type
  \<^verbatim>\<open>ServerType\<close>, its constants, \<^verbatim>\<open>ServerAd\<close>, \<^verbatim>\<open>Advertisement\<close>) is a
  separate package.  The spec (section 3) gives an Advertisement a name, a
  type in \<open>{Origin, Cache}\<close>, transport, auth, broker and web URLs, geographic
  coordinates, the capability flags and the namespace prefixes it serves.
  \<^verbatim>\<open>ServerType\<close> is a string type, as the conversions in \<^verbatim>\<open>listServers\<close> show.
  The types \<^verbatim>\<open>url.URL\<close> and \<^verbatim>\<open>float64\<close> are the type parameters \<open>'u\<close> and
  \<open>'f\<close>; the zero value \<^verbatim>\<open>url.URL{}\<close> and the method \<^verbatim>\<open>String()\<close> are
  parameters of the handler.
\<close>

type_synonym ServerType = string

definition OriginType :: ServerType where "OriginType = ''Origin''"
definition CacheType :: ServerType where "CacheType = ''Cache''"

record ('f, 'u) ServerAd =
  Name :: string
  AuthURL :: 'u
  BrokerURL :: 'u
  URL :: 'u
  WebURL :: 'u
  Type :: ServerType
  Latitude :: 'f
  Longitude :: 'f
  Writes :: bool
  DirectReads :: bool
  Listings :: bool

record NamespaceAd =
  Path :: string

record ('f, 'u) Advertisement =
  ServerAd :: "('f, 'u) ServerAd"
  NamespaceAds :: "NamespaceAd list"

text \<open>
  Modelled from the spec: \<^verbatim>\<open>HealthTestStatus\<close> is declared elsewhere in the
  director package; the spec (section 3) gives a health status as one of
  \<open>{Unknown, OK, Warning, Critical}\<close>.
\<close>

datatype HealthTestStatus =
    HealthStatusUnknown
  | HealthStatusOK
  | HealthStatusWarning
  | HealthStatusCritical

record listServerRequest =
  ServerType :: string

text \<open>\<^verbatim>\<open>listServerResponse\<close>; the fields carry their JSON names.\<close>

record 'f listServerResponse =
  name :: string
  authUrl :: string
  brokerUrl :: string
  url :: string
  webUrl :: string
  type :: ServerType
  latitude :: 'f
  longitude :: 'f
  enableWrite :: bool
  enableFallbackRead :: bool
  enableListing :: bool
  filtered :: bool
  filteredType :: disabledReason
  status :: HealthTestStatus
  namespacePrefixes :: "string list"

datatype 'f listBody =
    Failure SimpleApiResp
  | Listing "'f listServerResponse list"

definition ToInternalServerType :: "listServerRequest \<Rightarrow> ServerType" where
  "ToInternalServerType req =
     (if ServerType req = ''cache'' then CacheType
      else if ServerType req = ''origin'' then OriginType
      else [])"

text \<open>
  \<^verbatim>\<open>strings.EqualFold\<close> on byte strings with the case folding of ASCII letters.
  The handler only compares against \<^verbatim>\<open>Origin\<close> and \<^verbatim>\<open>Cache\<close>, whose letters
  have no other fold partner in Unicode, so nothing is lost there.
\<close>

definition toLowerASCII :: "char \<Rightarrow> char" where
  "toLowerASCII c =
     (let n = (of_char c :: nat) in if 65 \<le> n \<and> n \<le> 90 then char_of (n + 32) else c)"

definition EqualFold :: "string \<Rightarrow> string \<Rightarrow> bool" where
  "EqualFold s t = (map toLowerASCII s = map toLowerASCII t)"

text \<open>
  Modelled from the spec: \<^verbatim>\<open>listAdvertisement\<close> is defined elsewhere in the
  director package.  The spec (section 6) reads:
  \<^verbatim>\<open>ListAdvertisements(types: set<ServerType>) -> sequence<Advertisement>\<close>,
  pull-based, always reflecting the current external state.  The current
  advertisements are the first argument.
\<close>

definition listAdvertisement ::
  "('f, 'u) Advertisement list \<Rightarrow> ServerType list \<Rightarrow> ('f, 'u) Advertisement list" where
  "listAdvertisement ads serverTypes =
     filter (\<lambda>ad. Type (ServerAd ad) \<in> set serverTypes) ads"

text \<open>
  The body of the loop over the servers: one \<^verbatim>\<open>listServerResponse\<close> each.
  \<open>zeroURL\<close> is \<^verbatim>\<open>url.URL{}\<close> and \<open>urlString\<close> is the method \<^verbatim>\<open>String()\<close>.
\<close>

definition serverResponse ::
  "'u \<Rightarrow> ('u \<Rightarrow> string) \<Rightarrow> (('f, 'u) ServerAd \<rightharpoonup> HealthTestStatus) \<Rightarrow> (string \<Rightarrow> bool)
     \<Rightarrow> disabledServers \<Rightarrow> ('f, 'u) Advertisement \<Rightarrow> 'f listServerResponse" where
  "serverResponse zeroURL urlString healthTestUtils IsStaticallyFiltered ds server =
     (let healthStatus = (case healthTestUtils (ServerAd server) of
                            Some st \<Rightarrow> st
                          | None \<Rightarrow> HealthStatusUnknown);
          (disabled, ft) = isServerDisabled IsStaticallyFiltered ds (Name (ServerAd server));
          auth_url = (if AuthURL (ServerAd server) = zeroURL then urlString (URL (ServerAd server))
                      else urlString (AuthURL (ServerAd server)))
      in \<lparr>name = Name (ServerAd server),
          authUrl = auth_url,
          brokerUrl = urlString (BrokerURL (ServerAd server)),
          url = urlString (URL (ServerAd server)),
          webUrl = urlString (WebURL (ServerAd server)),
          type = Type (ServerAd server),
          latitude = Latitude (ServerAd server),
          longitude = Longitude (ServerAd server),
          enableWrite = Writes (ServerAd server),
          enableFallbackRead = DirectReads (ServerAd server),
          enableListing = Listings (ServerAd server),
          filtered = disabled,
          filteredType = ft,
          status = healthStatus,
          namespacePrefixes = map Path (NamespaceAds server)\<rparr>)"

text \<open>
  \<^verbatim>\<open>listServers\<close>.  Inputs: the zero URL and the rendering of URLs, the
  outcome of \<^verbatim>\<open>ctx.ShouldBindQuery\<close> (\<open>None\<close> when it fails), the current
  advertisements, the health map, the static filter configuration and the
  override map.
\<close>

definition listServers ::
  "'u \<Rightarrow> ('u \<Rightarrow> string) \<Rightarrow> listServerRequest option \<Rightarrow> ('f, 'u) Advertisement list
     \<Rightarrow> (('f, 'u) ServerAd \<rightharpoonup> HealthTestStatus)
     \<Rightarrow> (string \<Rightarrow> bool) \<Rightarrow> disabledServers \<Rightarrow> nat \<times> 'f listBody" where
  "listServers zeroURL urlString bound ads healthTestUtils IsStaticallyFiltered ds =
     (case bound of
        None \<Rightarrow>
          (StatusBadRequest,
           Failure \<lparr>Status = RespFailed, Msg = Text ''Invalid query parameters''\<rparr>)
      | Some queryParams \<Rightarrow>
          if ServerType queryParams \<noteq> [] then
            (if \<not> EqualFold (ServerType queryParams) OriginType
                \<and> \<not> EqualFold (ServerType queryParams) CacheType then
               (StatusBadRequest,
                Failure \<lparr>Status = RespFailed, Msg = Text ''Invalid server type''\<rparr>)
             else
               (StatusOK,
                Listing (map (serverResponse zeroURL urlString healthTestUtils IsStaticallyFiltered ds)
                  (listAdvertisement ads [ToInternalServerType queryParams]))))
          else
            (StatusOK,
             Listing (map (serverResponse zeroURL urlString healthTestUtils IsStaticallyFiltered ds)
               (listAdvertisement ads [OriginType, CacheType]))))"

section \<open>The origin API: the director test report and its timeout\<close>

text \<open>
  A \<^verbatim>\<open>time.Timer\<close> as far as the origin uses it.  Time is counted in seconds.
  \<open>deadline\<close> is the instant an armed timer will fire (\<open>None\<close>: stopped or
  expired); \<open>C\<close> tells whether a value waits in the timer's channel, whose
  buffer holds one value.
\<close>

record Timer =
  deadline :: "nat option"
  C :: bool

definition NewTimer :: "nat \<Rightarrow> nat \<Rightarrow> Timer" where
  "NewTimer now d = \<lparr>deadline = Some (now + d), C = False\<rparr>"

text \<open>\<^verbatim>\<open>Stop\<close> reports whether the call stopped an armed timer.\<close>

definition Stop :: "Timer \<Rightarrow> bool \<times> Timer" where
  "Stop t = (deadline t \<noteq> None, t\<lparr>deadline := None\<rparr>)"

definition Reset :: "nat \<Rightarrow> nat \<Rightarrow> Timer \<Rightarrow> Timer" where
  "Reset now d t = t\<lparr>deadline := Some (now + d)\<rparr>"

text \<open>The runtime fires an armed timer at its deadline: it sends on the channel.\<close>

definition expire :: "Timer \<Rightarrow> Timer" where
  "expire t = t\<lparr>deadline := None, C := True\<rparr>"

definition directorTimeoutDuration :: nat where
  "directorTimeoutDuration = 30"

text \<open>
  Modelled from the spec: \<^verbatim>\<open>metrics.SetComponentHealthStatus\<close> belongs to the
  metrics package, a separate package.  The spec (section 3)
  gives a health status as one of \<open>{Unknown, OK, Warning, Critical}\<close> plus a
  free-text message and a timestamp, keyed by component, and written by the
  deadline monitor for its own component.  The call returns an error; it is
  taken to fail when the status string names none of the four.
\<close>

datatype HealthStatus = Unknown | Ok | Warning | Critical

record componentHealth =
  healthStatus :: HealthStatus
  healthMessage :: string
  lastUpdate :: nat

definition statusOfString :: "string \<Rightarrow> HealthStatus option" where
  "statusOfString s =
     (if s = ''ok'' then Some Ok
      else if s = ''warning'' then Some Warning
      else if s = ''critical'' then Some Critical
      else if s = ''unknown'' then Some Unknown
      else None)"

definition SetComponentHealthStatus ::
  "nat \<Rightarrow> string \<Rightarrow> string \<Rightarrow> string \<Rightarrow> (string \<rightharpoonup> componentHealth)
     \<Rightarrow> string + (string \<rightharpoonup> componentHealth)" where
  "SetComponentHealthStatus now component state msg health =
     (case statusOfString state of
        None \<Rightarrow> Inl (''Unknown component status: '' @ state)
      | Some st \<Rightarrow>
          Inr (health(component \<mapsto>
                 \<lparr>healthStatus = st, healthMessage = msg, lastUpdate = now\<rparr>)))"

record DirectorTest =
  Status :: string
  Message :: string
  Timestamp :: string

text \<open>
  The package state of \<^verbatim>\<open>origin_ui\<close>: the timer (\<open>None\<close> is \<^verbatim>\<open>nil\<close>), whether
  the goroutine with the timeout loop has been started, and the component
  health kept by the metrics package.
\<close>

record originState =
  directorTimeoutTimer :: "Timer option"
  loopStarted :: bool
  health :: "string \<rightharpoonup> componentHealth"

text \<open>
  \<^verbatim>\<open>resetDirectorTimeoutTimer\<close> at the instant \<open>now\<close>.  The result is \<open>None\<close>
  when the call never returns: \<^verbatim>\<open>Stop\<close> reported an expired timer and the
  receive from the channel finds it empty.
\<close>

definition resetDirectorTimeoutTimer :: "nat \<Rightarrow> originState \<Rightarrow> originState option" where
  "resetDirectorTimeoutTimer now st =
     (case directorTimeoutTimer st of
        None \<Rightarrow>
          Some (st\<lparr>directorTimeoutTimer := Some (NewTimer now directorTimeoutDuration),
                   loopStarted := True\<rparr>)
      | Some t \<Rightarrow>
          (case Stop t of
             (stopped, t1) \<Rightarrow>
               if \<not> stopped then
                 (if C t1 then
                    Some (st\<lparr>directorTimeoutTimer :=
                               Some (Reset now directorTimeoutDuration (t1\<lparr>C := False\<rparr>))\<rparr>)
                  else None)
               else
                 Some (st\<lparr>directorTimeoutTimer := Some (Reset now directorTimeoutDuration t1)\<rparr>)))"

text \<open>
  One pass of the timeout loop through the branch
  \<^verbatim>\<open>case <-directorTimeoutTimer.C\<close>, at the instant \<open>now\<close>: the value is
  received, the director component is set to critical (a failure of that call
  is only logged) and the timer is reset.  \<open>None\<close> when the channel is empty
  (the \<^verbatim>\<open>select\<close> keeps waiting) or the loop was never started.
\<close>

definition timeoutLoopPass :: "nat \<Rightarrow> originState \<Rightarrow> originState option" where
  "timeoutLoopPass now st =
     (case directorTimeoutTimer st of
        None \<Rightarrow> None
      | Some t \<Rightarrow>
          if \<not> loopStarted st \<or> \<not> C t then None
          else
            (let health' =
                   (case SetComponentHealthStatus now ''director'' ''critical''
                           ''No director test report received within the time limit'' (health st) of
                      Inl err \<Rightarrow> health st
                    | Inr h \<Rightarrow> h)
             in Some (st\<lparr>health := health',
                         directorTimeoutTimer :=
                           Some (Reset now directorTimeoutDuration (t\<lparr>C := False\<rparr>))\<rparr>)))"

text \<open>
  A run without any report: \<open>n\<close> times in a row the armed timer fires at its
  deadline and the loop handles the expiry at that instant.  \<open>None\<close> when the
  timer is not armed or the loop does not take the expiry.
\<close>

fun expiries :: "nat \<Rightarrow> originState \<Rightarrow> originState option" where
  "expiries 0 st = Some st"
| "expiries (Suc n) st =
     (case directorTimeoutTimer st of
        None \<Rightarrow> None
      | Some t \<Rightarrow>
          (case deadline t of
             None \<Rightarrow> None
           | Some at \<Rightarrow>
               (case timeoutLoopPass at (st\<lparr>directorTimeoutTimer := Some (expire t)\<rparr>) of
                  None \<Rightarrow> None
                | Some st' \<Rightarrow> expiries n st')))"

text \<open>
  What the report handler does, in order: the timer reset, the update of the
  director component's health, the JSON response (status code and the text
  under the key \<^verbatim>\<open>error\<close>).
\<close>

datatype originEvent =
    TimerReset
  | HealthSet string string
  | ReplyJSON nat string

text \<open>
  \<^verbatim>\<open>directorTestResponse\<close> at the instant \<open>now\<close>.  \<open>bound\<close> is the outcome of
  \<^verbatim>\<open>ctx.ShouldBind(&dt)\<close>, \<open>None\<close> when the body does not bind.  The result is
  \<open>None\<close> when the timer reset never returns.
\<close>

definition directorTestResponse ::
  "nat \<Rightarrow> DirectorTest option \<Rightarrow> originState \<Rightarrow> (originEvent list \<times> originState) option" where
  "directorTestResponse now bound st =
     (case bound of
        None \<Rightarrow> Some ([ReplyJSON 400 ''Invalid director test response''], st)
      | Some dt \<Rightarrow>
          (case resetDirectorTimeoutTimer now st of
             None \<Rightarrow> None
           | Some st1 \<Rightarrow>
               if Status dt = ''ok'' then
                 (case SetComponentHealthStatus now ''director'' ''ok''
                         (''Director timestamp: '' @ Timestamp dt) (health st1) of
                    Inl err \<Rightarrow>
                      Some ([TimerReset,
                             ReplyJSON 500 (''Failed to update director component health status: '' @ err)],
                            st1)
                  | Inr h \<Rightarrow> Some ([TimerReset, HealthSet ''ok'' (''Director timestamp: '' @ Timestamp dt)],
                                   st1\<lparr>health := h\<rparr>))
               else if Status dt = ''error'' then
                 (case SetComponentHealthStatus now ''director'' ''critical'' (Message dt) (health st1) of
                    Inl err \<Rightarrow>
                      Some ([TimerReset,
                             ReplyJSON 500 (''Failed to update director component health status: '' @ err)],
                            st1)
                  | Inr h \<Rightarrow> Some ([TimerReset, HealthSet ''critical'' (Message dt)], st1\<lparr>health := h\<rparr>))
               else
                 Some ([TimerReset,
                        ReplyJSON 400 (''Invalid director test response status: '' @ Status dt)],
                       st1)))"


text \<open>
  The states in which the timer reset returns: the timer is \<^verbatim>\<open>nil\<close>, or it is
  armed, or a value waits in its channel.
\<close>

definition timerReady :: "originState \<Rightarrow> bool" where
  "timerReady st =
     (case directorTimeoutTimer st of
        None \<Rightarrow> True
      | Some t \<Rightarrow> deadline t \<noteq> None \<or> C t)"

text \<open>The instant at which the timer of a state will fire, if it is armed.\<close>

definition nextExpiry :: "originState \<Rightarrow> nat option" where
  "nextExpiry st =
     (case directorTimeoutTimer st of
        None \<Rightarrow> None
      | Some t \<Rightarrow> deadline t)"

section \<open>Properties of \<^verbatim>\<open>path.Clean\<close>\<close>

lemma backtrack_bounds:
  "dotdot \<le> w \<Longrightarrow> dotdot \<le> backtrack dotdot buf w \<and> backtrack dotdot buf w \<le> w"
proof (induction dotdot buf w rule: backtrack.induct)
  case (1 dotdot buf w)
  show ?case
  proof (cases "w > dotdot \<and> buf ! w \<noteq> CHR ''/''")
    case True
    then have "dotdot \<le> w - 1" by arith
    with 1 True have "dotdot \<le> backtrack dotdot buf (w - 1) \<and> backtrack dotdot buf (w - 1) \<le> w - 1"
      by blast
    moreover have "backtrack dotdot buf w = backtrack dotdot buf (w - 1)"
      using True by (subst backtrack.simps) simp
    ultimately show ?thesis by arith
  next
    case False
    then have "backtrack dotdot buf w = w" by (subst backtrack.simps) auto
    with 1 show ?thesis by simp
  qed
qed

lemma backtrack_slash:
  "dotdot < backtrack dotdot buf w \<Longrightarrow> buf ! (backtrack dotdot buf w) = CHR ''/''"
proof (induction dotdot buf w rule: backtrack.induct)
  case (1 dotdot buf w)
  show ?case
  proof (cases "w > dotdot \<and> buf ! w \<noteq> CHR ''/''")
    case True
    then have "backtrack dotdot buf w = backtrack dotdot buf (w - 1)"
      by (subst backtrack.simps) simp
    with 1 True show ?thesis by simp
  next
    case False
    then have "backtrack dotdot buf w = w" by (subst backtrack.simps) auto
    with 1(2) False show ?thesis by simp
  qed
qed

lemma noDoubleSlash_append:
  "noDoubleSlash (xs @ ys) \<longleftrightarrow>
     noDoubleSlash xs \<and> noDoubleSlash ys \<and>
     (xs \<noteq> [] \<and> ys \<noteq> [] \<longrightarrow> \<not> (last xs = CHR ''/'' \<and> hd ys = CHR ''/''))"
proof (induction xs rule: noDoubleSlash.induct)
  case 1
  then show ?case by simp
next
  case (2 a)
  then show ?case by (cases ys) auto
next
  case (3 a b xs)
  then show ?case by auto
qed

lemma noDoubleSlash_noslash: "\<forall>x\<in>set xs. x \<noteq> CHR ''/'' \<Longrightarrow> noDoubleSlash xs"
  by (induction xs rule: noDoubleSlash.induct) auto

lemma noDoubleSlash_take: "noDoubleSlash xs \<Longrightarrow> noDoubleSlash (take n xs)"
proof -
  assume "noDoubleSlash xs"
  then have "noDoubleSlash (take n xs @ drop n xs)" by simp
  then show ?thesis unfolding noDoubleSlash_append by blast
qed

lemma noDoubleSlash_nth:
  "noDoubleSlash xs \<Longrightarrow> Suc i < length xs \<Longrightarrow> xs ! Suc i = CHR ''/'' \<Longrightarrow> xs ! i \<noteq> CHR ''/''"
proof -
  assume a: "noDoubleSlash xs" "Suc i < length xs" "xs ! Suc i = CHR ''/''"
  have "xs = take (Suc i) xs @ drop (Suc i) xs" by simp
  with a(1) have "noDoubleSlash (take (Suc i) xs @ drop (Suc i) xs)" by simp
  then have "\<not> (last (take (Suc i) xs) = CHR ''/'' \<and> hd (drop (Suc i) xs) = CHR ''/'')"
    unfolding noDoubleSlash_append using a(2) by auto
  moreover have "hd (drop (Suc i) xs) = xs ! Suc i" using a(2) by (simp add: hd_drop_conv_nth)
  moreover have "last (take (Suc i) xs) = xs ! i"
    using a(2) by (simp add: take_Suc_conv_app_nth)
  ultimately show ?thesis using a(3) by simp
qed


lemma cleanInv_backtrack:
  assumes "cleanInv rooted out dotdot" "dotdot < length out"
  shows "cleanInv rooted (take (backtrack dotdot out (length out - 1)) out) dotdot"
proof -
  define w where "w = backtrack dotdot out (length out - 1)"
  have "cleanInv rooted (take w out) dotdot"
  proof -
  have le: "dotdot \<le> length out - 1" using assms(2) by arith
  have b: "dotdot \<le> w" "w \<le> length out - 1"
    using backtrack_bounds [OF le, of out] by (simp_all add: w_def)
  have sl: "dotdot < w \<Longrightarrow> out ! w = CHR ''/''"
    using backtrack_slash [of dotdot out "length out - 1"] by (simp add: w_def)
  have wlt: "w < length out" using b(2) assms(2) by arith
  have nds: "noDoubleSlash out" using assms(1) by (simp add: cleanInv_def)
  have lastw: "0 < w \<Longrightarrow> last (take w out) = out ! (w - 1)"
    using wlt by (cases w) (simp_all add: take_Suc_conv_app_nth)
  have prev: "dotdot < w \<Longrightarrow> out ! (w - 1) \<noteq> CHR ''/''"
  proof -
    assume h: "dotdot < w"
    then obtain i where i: "w = Suc i" by (cases w) auto
    with sl [OF h] wlt nds noDoubleSlash_nth [of out i] show ?thesis by simp
  qed
  show ?thesis
  proof (cases rooted)
    case True
    with assms(1) have d: "dotdot = 1" "hd out = CHR ''/''" by (simp_all add: cleanInv_def)
    have "hd (take w out) = CHR ''/''" using d b(1) by (cases out; cases w) auto
    moreover have "length (take w out) > 1 \<longrightarrow> last (take w out) \<noteq> CHR ''/''"
      using lastw prev d(1) wlt by auto
    ultimately show ?thesis
      using True d b wlt nds by (simp add: cleanInv_def noDoubleSlash_take)
  next
    case False
    with assms(1) have d: "dotdot > 0 \<longrightarrow> out ! (dotdot - 1) \<noteq> CHR ''/''"
      by (simp add: cleanInv_def)
    have "take w out \<noteq> [] \<longrightarrow> last (take w out) \<noteq> CHR ''/''"
    proof
      assume "take w out \<noteq> []"
      then have w0: "0 < w" by (cases w) auto
      show "last (take w out) \<noteq> CHR ''/''"
      proof (cases "dotdot < w")
        case True
        then show ?thesis using lastw [OF w0] prev by simp
      next
        case False
        with b(1) have "w = dotdot" by simp
        then show ?thesis using lastw [OF w0] d w0 by simp
      qed
    qed
    moreover have "dotdot > 0 \<longrightarrow> take w out ! (dotdot - 1) \<noteq> CHR ''/''"
      using d b(1) by auto
    ultimately show ?thesis
      using False b wlt nds by (simp add: cleanInv_def noDoubleSlash_take)
  qed
  qed
  then show ?thesis by (simp only: w_def)
qed

lemma cleanInv_dotdot:
  assumes "cleanInv False out dotdot" "\<not> dotdot < length out"
  shows "cleanInv False ((if length out > 0 then out @ ''/'' else out) @ ''..'')
           (length ((if length out > 0 then out @ ''/'' else out) @ ''..''))"
  using assms by (auto simp: cleanInv_def noDoubleSlash_append nth_append)

lemma cleanInv_element:
  assumes "cleanInv rooted out dotdot" "c \<noteq> CHR ''/''"
  shows "cleanInv rooted
           ((if rooted \<and> length out \<noteq> 1 \<or> \<not> rooted \<and> length out \<noteq> 0 then out @ ''/'' else out)
              @ takeWhile (\<lambda>x. x \<noteq> CHR ''/'') (c # cs))
           dotdot"
proof -
  define el where "el = takeWhile (\<lambda>x. x \<noteq> CHR ''/'') (c # cs)"
  have ne: "el \<noteq> []" using assms(2) by (simp add: el_def)
  have ns: "\<forall>x\<in>set el. x \<noteq> CHR ''/''" unfolding el_def by (auto dest: set_takeWhileD)
  have nd: "noDoubleSlash el" using ns by (rule noDoubleSlash_noslash)
  have hl: "hd el \<noteq> CHR ''/''" "last el \<noteq> CHR ''/''" using ne ns by auto
  have "cleanInv rooted
           ((if rooted \<and> length out \<noteq> 1 \<or> \<not> rooted \<and> length out \<noteq> 0 then out @ ''/'' else out)
              @ el) dotdot"
  proof (cases rooted)
    case True
    with assms(1) have i: "dotdot = 1" "hd out = CHR ''/''" "1 \<le> length out"
      "noDoubleSlash out" "length out > 1 \<longrightarrow> last out \<noteq> CHR ''/''"
      by (simp_all add: cleanInv_def)
    then have o: "out \<noteq> []" by auto
    show ?thesis
      using True i o ne nd hl
      by (auto simp: cleanInv_def noDoubleSlash_append)
  next
    case False
    with assms(1) have i: "dotdot \<le> length out" "noDoubleSlash out"
      "out \<noteq> [] \<longrightarrow> last out \<noteq> CHR ''/''" "dotdot > 0 \<longrightarrow> out ! (dotdot - 1) \<noteq> CHR ''/''"
      by (simp_all add: cleanInv_def)
    show ?thesis
      using False i ne nd hl
      by (auto simp: cleanInv_def noDoubleSlash_append nth_append)
  qed
  then show ?thesis by (simp only: el_def)
qed

lemma cleanLoop_inv:
  "cleanInv rooted out dotdot \<Longrightarrow> \<exists>d. cleanInv rooted (cleanLoop rooted p out dotdot) d"
proof (induction rooted p out dotdot rule: cleanLoop.induct)
  case (1 rooted out dotdot)
  then show ?case by auto
next
  case (2 rooted c cs out dotdot)
  show ?case
  proof (cases "c = CHR ''/''")
    case True
    with 2 show ?thesis by simp
  next
    case nslash: False
    show ?thesis
    proof (cases "c = CHR ''.'' \<and> (cs = [] \<or> hd cs = CHR ''/'')")
      case True
      with 2 nslash show ?thesis by simp
    next
      case ndot: False
      show ?thesis
      proof (cases "c = CHR ''.'' \<and> hd cs = CHR ''.'' \<and> (tl cs = [] \<or> hd (tl cs) = CHR ''/'')")
        case True
        show ?thesis
        proof (cases "length out > dotdot")
          case bt: True
          have "cleanInv rooted (take (backtrack dotdot out (length out - 1)) out) dotdot"
            using cleanInv_backtrack [OF "2.prems"] bt by simp
          from "2.IH"(3) [OF nslash ndot True bt this] nslash ndot True bt
          show ?thesis by simp
        next
          case nbt: False
          show ?thesis
          proof (cases rooted)
            case r: True
            from "2.IH"(5) [OF nslash ndot True nbt _ "2.prems"] r nslash ndot True nbt
            show ?thesis by simp
          next
            case nr: False
            have "cleanInv rooted ((if length out > 0 then out @ ''/'' else out) @ ''..'')
                    (length ((if length out > 0 then out @ ''/'' else out) @ ''..''))"
              using cleanInv_dotdot [of out dotdot] "2.prems" nr nbt by simp
            from "2.IH"(4) [OF nslash ndot True nbt nr this] nslash ndot True nbt nr
            show ?thesis by simp
          qed
        qed
      next
        case el: False
        have "cleanInv rooted
           ((if rooted \<and> length out \<noteq> 1 \<or> \<not> rooted \<and> length out \<noteq> 0 then out @ ''/'' else out)
              @ takeWhile (\<lambda>x. x \<noteq> CHR ''/'') (c # cs)) dotdot"
          by (rule cleanInv_element [OF "2.prems" nslash])
        from "2.IH"(6) [OF nslash ndot el this]
        show ?thesis by (subst cleanLoop.simps) (simp only: nslash ndot el if_False)
      qed
    qed
  qed
qed

lemma Clean_nonempty: "Clean p \<noteq> []"
  by (simp add: Clean_def Let_def)

lemma cleanInv_last:
  assumes "cleanInv rooted out d" "out \<noteq> []" "last out = CHR ''/''"
  shows "out = ''/''"
proof (cases rooted)
  case True
  with assms have "hd out = CHR ''/''" "length out \<le> 1" by (auto simp: cleanInv_def)
  with assms(2) show ?thesis by (cases out) auto
next
  case False
  with assms show ?thesis by (simp add: cleanInv_def)
qed

lemma HasSuffix_slash: "HasSuffix s ''/'' \<longleftrightarrow> s \<noteq> [] \<and> last s = CHR ''/''"
proof (cases s rule: rev_cases)
  case Nil
  then show ?thesis by (simp add: HasSuffix_def)
next
  case (snoc ys y)
  then show ?thesis by (auto simp: HasSuffix_def)
qed

lemma Clean_slash: "HasSuffix (Clean p) ''/'' \<Longrightarrow> Clean p = ''/''"
proof -
  assume h: "HasSuffix (Clean p) ''/''"
  show ?thesis
  proof (cases "p = []")
    case True
    with h show ?thesis by (simp add: Clean_def HasSuffix_def)
  next
    case False
    define rooted where "rooted = (hd p = CHR ''/'')"
    define out where "out = (if rooted then cleanLoop rooted (tl p) ''/'' 1 else cleanLoop rooted p [] 0)"
    have c: "Clean p = (if length out = 0 then ''.'' else out)"
      using False by (simp add: Clean_def Let_def out_def rooted_def)
    have "\<exists>d. cleanInv rooted out d"
    proof (cases rooted)
      case True
      have "cleanInv True ''/'' 1" by (simp add: cleanInv_def)
      from cleanLoop_inv [OF this] True show ?thesis by (simp add: out_def)
    next
      case False
      have "cleanInv False [] 0" by (simp add: cleanInv_def)
      from cleanLoop_inv [OF this] False show ?thesis by (simp add: out_def)
    qed
    then obtain d where inv: "cleanInv rooted out d" ..
    show ?thesis
    proof (cases "out = []")
      case True
      with h c show ?thesis by (simp add: HasSuffix_def)
    next
      case ne: False
      with h c have "last out = CHR ''/''" by (simp add: HasSuffix_slash)
      from cleanInv_last [OF inv ne this] c ne show ?thesis by simp
    qed
  qed
qed

section \<open>Results on the override registry\<close>

lemma handleDisableServerToggle_rows:
  assumes "serverUrl \<noteq> []"
  shows "handleDisableServerToggle flt serverUrl (Inr \<lparr>Disabled = dis\<rparr>) ds =
     (case ds serverUrl of
        None \<Rightarrow>
          if dis then
            (if flt serverUrl then
               ((StatusBadRequest,
                 \<lparr>SimpleApiResp.Status = RespFailed,
                  Msg = Sprint ''Can't disable a server that already has been disabled with reason: '' staticReason\<rparr>),
                ds)
             else ((StatusOK, \<lparr>SimpleApiResp.Status = RespOK, Msg = Text ''success''\<rparr>),
                   ds(serverUrl \<mapsto> tempDisabled)))
          else
            ((StatusBadRequest,
              \<lparr>SimpleApiResp.Status = RespFailed,
               Msg = Text ''Can't enable a server that is not disabled or does not exist''\<rparr>), ds)
      | Some r \<Rightarrow>
          if r = tempEnabled then
            (if dis then
               ((StatusOK, \<lparr>SimpleApiResp.Status = RespOK, Msg = Text ''success''\<rparr>),
                ds(serverUrl \<mapsto> permDisabeld))
             else
               ((StatusBadRequest,
                 \<lparr>SimpleApiResp.Status = RespFailed,
                  Msg = Sprint ''Can't enable a server that already has been enabled with reason: '' tempEnabled\<rparr>),
                ds))
          else
            (if dis then
               ((StatusBadRequest,
                 \<lparr>SimpleApiResp.Status = RespFailed,
                  Msg = Sprint ''Can't disable a server that already has been disabled with reason: '' r\<rparr>),
                ds)
             else
               ((StatusOK, \<lparr>SimpleApiResp.Status = RespOK, Msg = Text ''success''\<rparr>),
                if r = tempDisabled then ds(serverUrl := None)
                else if r = permDisabeld then ds(serverUrl \<mapsto> tempEnabled)
                else ds)))"
  using assms
  by (simp add: handleDisableServerToggle_def isServerDisabled_def split: option.splits)

lemma handleDisableServerToggle_keeps_tempDisabled:
  assumes "\<forall>s. ds s = None \<or> ds s = Some tempDisabled"
  shows "\<forall>s. snd (handleDisableServerToggle flt serverUrl bound ds) s = None
            \<or> snd (handleDisableServerToggle flt serverUrl bound ds) s = Some tempDisabled"
proof (cases "serverUrl = []")
  case True
  with assms show ?thesis by (simp add: handleDisableServerToggle_def)
next
  case ne: False
  show ?thesis
  proof (cases bound)
    case (Inl err)
    with assms ne show ?thesis by (simp add: handleDisableServerToggle_def)
  next
    case (Inr req)
    obtain dis where req: "req = \<lparr>Disabled = dis\<rparr>" by (cases req) auto
    from assms have "ds serverUrl = None \<or> ds serverUrl = Some tempDisabled" by blast
    then show ?thesis
    proof
      assume "ds serverUrl = None"
      with assms show ?thesis
        by (simp add: Inr req handleDisableServerToggle_rows [OF ne])
    next
      assume "ds serverUrl = Some tempDisabled"
      with assms show ?thesis
        by (simp add: Inr req handleDisableServerToggle_rows [OF ne])
    qed
  qed
qed

text \<open>
  With the static filter kept outside the override map, no sequence of Toggle
  requests that starts from the empty map ever stores \<^verbatim>\<open>permDisabeld\<close> or
  \<^verbatim>\<open>tempEnabled\<close>: every entry is \<^verbatim>\<open>tempDisabled\<close>.
\<close>

lemma runToggles_from_empty:
  "runToggles flt reqs Map.empty s = None \<or> runToggles flt reqs Map.empty s = Some tempDisabled"
proof -
  have "(\<forall>s. ds s = None \<or> ds s = Some tempDisabled) \<Longrightarrow>
        (\<forall>s. runToggles flt reqs ds s = None \<or> runToggles flt reqs ds s = Some tempDisabled)" for ds
  proof (induction reqs arbitrary: ds)
    case Nil
    then show ?case by simp
  next
    case (Cons r reqs)
    obtain serverUrl bound where r: "r = (serverUrl, bound)" by (cases r)
    from handleDisableServerToggle_keeps_tempDisabled [OF Cons.prems, of flt serverUrl bound]
    have "\<forall>s. runToggles flt reqs (snd (handleDisableServerToggle flt serverUrl bound ds)) s = None
            \<or> runToggles flt reqs (snd (handleDisableServerToggle flt serverUrl bound ds)) s
                 = Some tempDisabled"
      by (rule Cons.IH)
    then show ?case by (simp add: r)
  qed
  from this [of Map.empty] show ?thesis by simp
qed

text \<open>
  The rows of the section 4.1 table that are read off the override map: no
  entry and not statically filtered (enabled), an entry \<^verbatim>\<open>tempDisabled\<close>, an
  explicit entry \<^verbatim>\<open>permDisabeld\<close>, an entry \<^verbatim>\<open>tempEnabled\<close>.  In each of them the
  handler gives the result of the table.
\<close>

lemma toggle_rows_from_map:
  assumes "serverUrl \<noteq> []"
  shows "(ds serverUrl = None \<and> \<not> flt serverUrl \<longrightarrow>
            observed ds serverUrl (specToggle stEnabled dis)
              (handleDisableServerToggle flt serverUrl (Inr \<lparr>Disabled = dis\<rparr>) ds)) \<and>
         (ds serverUrl = Some tempDisabled \<longrightarrow>
            observed ds serverUrl (specToggle stTempDisabled dis)
              (handleDisableServerToggle flt serverUrl (Inr \<lparr>Disabled = dis\<rparr>) ds)) \<and>
         (ds serverUrl = Some permDisabeld \<longrightarrow>
            observed ds serverUrl (specToggle stPermDisabled dis)
              (handleDisableServerToggle flt serverUrl (Inr \<lparr>Disabled = dis\<rparr>) ds)) \<and>
         (ds serverUrl = Some tempEnabled \<longrightarrow>
            observed ds serverUrl (specToggle stTempEnabled dis)
              (handleDisableServerToggle flt serverUrl (Inr \<lparr>Disabled = dis\<rparr>) ds))"
  by (cases dis)
     (simp_all add: handleDisableServerToggle_rows [OF assms] StatusOK_def StatusBadRequest_def)



lemma HasSuffix_append: "HasSuffix (s @ t) t"
  by (simp add: HasSuffix_def)

text \<open>
  Claim C2: every Toggle request that violates a precondition of the table
  (disable of an effectively disabled server, enable of an effectively enabled
  one) is answered with a 400 failure response whose message carries the
  current reason, and leaves the override map as it was.  The message is built
  from the current reason by \<^verbatim>\<open>fmt.Sprint\<close>; the one fixed text, that of the
  first guard, is returned only when the current reason is \<^verbatim>\<open>none\<close>.
\<close>

theorem toggle_conflict_state_unchanged:
  assumes "serverUrl \<noteq> []"
    and "violatesPrecondition flt ds serverUrl dis"
  shows "fst (fst (handleDisableServerToggle flt serverUrl (Inr \<lparr>Disabled = dis\<rparr>) ds)) = StatusBadRequest
     \<and> SimpleApiResp.Status (snd (fst (handleDisableServerToggle flt serverUrl (Inr \<lparr>Disabled = dis\<rparr>) ds)))
         = RespFailed
     \<and> carriesReason reasonText errorText
         (SimpleApiResp.Msg (snd (fst (handleDisableServerToggle flt serverUrl (Inr \<lparr>Disabled = dis\<rparr>) ds))))
         (snd (isServerDisabled flt ds serverUrl))
     \<and> (case SimpleApiResp.Msg (snd (fst (handleDisableServerToggle flt serverUrl (Inr \<lparr>Disabled = dis\<rparr>) ds))) of
           Sprint s r \<Rightarrow> r = snd (isServerDisabled flt ds serverUrl)
         | Text s \<Rightarrow> snd (isServerDisabled flt ds serverUrl) = noReason
         | ErrorText e s \<Rightarrow> False)
     \<and> snd (handleDisableServerToggle flt serverUrl (Inr \<lparr>Disabled = dis\<rparr>) ds) = ds"
  using assms(2)
  by (cases dis)
     (auto simp: handleDisableServerToggle_rows [OF assms(1)] violatesPrecondition_def
        isServerDisabled_def carriesReason_def reasonString_def HasSuffix_append HasSuffix_def
        split: option.splits if_splits)

theorem toggle_conflict_state_unchanged_witness:
  "snd (handleDisableServerToggle (\<lambda>s. False) ''o1'' (Inr \<lparr>Disabled = True\<rparr>) [''o1'' \<mapsto> tempDisabled])
     = [''o1'' \<mapsto> tempDisabled]
   \<and> SimpleApiResp.Msg (snd (fst (handleDisableServerToggle (\<lambda>s. False) ''o1''
         (Inr \<lparr>Disabled = True\<rparr>) [''o1'' \<mapsto> tempDisabled])))
       = Sprint ''Can't disable a server that already has been disabled with reason: '' tempDisabled
   \<and> carriesReason (\<lambda>r. if r = tempDisabled then ''tempDisabled'' else ''other'') (\<lambda>e. [])
         (Sprint ''Can't disable a server that already has been disabled with reason: '' tempDisabled)
         tempDisabled
   \<and> snd (handleDisableServerToggle (\<lambda>s. False) ''o1'' (Inr \<lparr>Disabled = False\<rparr>) [''o1'' \<mapsto> tempEnabled])
     = [''o1'' \<mapsto> tempEnabled]
   \<and> snd (handleDisableServerToggle (\<lambda>s. False) ''o1'' (Inr \<lparr>Disabled = False\<rparr>) Map.empty)
     = Map.empty"
proof -
  have ne: "''o1'' \<noteq> []" by simp
  have v1: "violatesPrecondition (\<lambda>s. False) [''o1'' \<mapsto> tempDisabled] ''o1'' True"
    by (simp add: violatesPrecondition_def isServerDisabled_def)
  have v2: "violatesPrecondition (\<lambda>s. False) [''o1'' \<mapsto> tempEnabled] ''o1'' False"
    by (simp add: violatesPrecondition_def isServerDisabled_def)
  have v3: "violatesPrecondition (\<lambda>s. False) Map.empty ''o1'' False"
    by (simp add: violatesPrecondition_def isServerDisabled_def)
  have m: "SimpleApiResp.Msg (snd (fst (handleDisableServerToggle (\<lambda>s. False) ''o1''
         (Inr \<lparr>Disabled = True\<rparr>) [''o1'' \<mapsto> tempDisabled])))
       = Sprint ''Can't disable a server that already has been disabled with reason: '' tempDisabled"
    by (simp add: handleDisableServerToggle_def isServerDisabled_def)
  have r: "snd (isServerDisabled (\<lambda>s. False) [''o1'' \<mapsto> tempDisabled] ''o1'') = tempDisabled"
    by (simp add: isServerDisabled_def)
  show ?thesis
    using toggle_conflict_state_unchanged
            [OF ne v1, of "\<lambda>r. if r = tempDisabled then ''tempDisabled'' else ''other''" "\<lambda>e. []"]
          toggle_conflict_state_unchanged [OF ne v2] toggle_conflict_state_unchanged [OF ne v3]
    unfolding m r
    by blast
qed

text \<open>
  Claim C3: for a server whose override entry is \<^verbatim>\<open>tempEnabled\<close>, a disable
  request succeeds and records the explicit entry \<^verbatim>\<open>permDisabled\<close> (the entry
  is not deleted); an enable request after it succeeds and gives
  \<^verbatim>\<open>tempEnabled\<close> again, which is the map the cycle started from; so any
  number of disable/enable rounds ends in the starting map.
\<close>

theorem tempEnabled_cycle_stable:
  assumes "serverUrl \<noteq> []"
    and "ds serverUrl = Some tempEnabled"
  shows "handleDisableServerToggle flt serverUrl (Inr \<lparr>Disabled = True\<rparr>) ds
           = ((StatusOK, \<lparr>SimpleApiResp.Status = RespOK, Msg = Text ''success''\<rparr>),
              ds(serverUrl \<mapsto> permDisabeld))
     \<and> handleDisableServerToggle flt serverUrl (Inr \<lparr>Disabled = False\<rparr>) (ds(serverUrl \<mapsto> permDisabeld))
           = ((StatusOK, \<lparr>SimpleApiResp.Status = RespOK, Msg = Text ''success''\<rparr>),
              ds(serverUrl \<mapsto> tempEnabled))
     \<and> ds(serverUrl \<mapsto> tempEnabled) = ds
     \<and> (toggleCycle flt serverUrl ^^ n) ds = ds"
proof -
  have a: "handleDisableServerToggle flt serverUrl (Inr \<lparr>Disabled = True\<rparr>) ds
           = ((StatusOK, \<lparr>SimpleApiResp.Status = RespOK, Msg = Text ''success''\<rparr>),
              ds(serverUrl \<mapsto> permDisabeld))"
    using assms(2) by (simp add: handleDisableServerToggle_rows [OF assms(1)])
  have b: "handleDisableServerToggle flt serverUrl (Inr \<lparr>Disabled = False\<rparr>) (ds(serverUrl \<mapsto> permDisabeld))
           = ((StatusOK, \<lparr>SimpleApiResp.Status = RespOK, Msg = Text ''success''\<rparr>),
              ds(serverUrl \<mapsto> tempEnabled))"
    by (simp add: handleDisableServerToggle_rows [OF assms(1)])
  have c: "ds(serverUrl \<mapsto> tempEnabled) = ds"
    using assms(2) by (simp add: map_upd_triv)
  have d: "toggleCycle flt serverUrl ds = ds"
    by (simp add: toggleCycle_def a b c)
  have "(toggleCycle flt serverUrl ^^ n) ds = ds"
    by (induction n) (simp_all add: d)
  with a b c show ?thesis by simp
qed

theorem tempEnabled_cycle_stable_witness:
  "snd (handleDisableServerToggle (\<lambda>s. True) ''o1'' (Inr \<lparr>Disabled = True\<rparr>) [''o1'' \<mapsto> tempEnabled]) ''o1''
     = Some permDisabeld
   \<and> snd (handleDisableServerToggle (\<lambda>s. True) ''o1'' (Inr \<lparr>Disabled = False\<rparr>)
        [''o1'' \<mapsto> permDisabeld]) ''o1''
     = Some tempEnabled
   \<and> (toggleCycle (\<lambda>s. True) ''o1'' ^^ 5) [''o1'' \<mapsto> tempEnabled] = [''o1'' \<mapsto> tempEnabled]"
proof -
  have ne: "''o1'' \<noteq> []" by simp
  have en: "[''o1'' \<mapsto> tempEnabled] ''o1'' = Some tempEnabled" by simp
  show ?thesis
    using tempEnabled_cycle_stable
            [where serverUrl = "''o1''" and ds = "[''o1'' \<mapsto> tempEnabled]"
               and flt = "\<lambda>s. True" and n = 5, OF ne en]
    by simp
qed

section \<open>Results on \<^verbatim>\<open>queryOrigins\<close>\<close>

lemma queryOrigins_rejected:
  "Clean pathParam = ''/'' \<Longrightarrow>
   queryOrigins pathParam bound Query =
     ([WriteJSON StatusBadRequest
         (Simple \<lparr>SimpleApiResp.Status = RespFailed,
            Msg = Text (''Path should not be empty or ended with slash '' @ [CHR 0x27, CHR ''/'', CHR 0x27])\<rparr>)],
      Returned)"
  by (simp add: queryOrigins_def HasSuffix_def)

lemma queryOriginsTail_CallQuery:
  "CallQuery p mn mx \<in> set (fst (queryOriginsTail evs meta msg err)) \<Longrightarrow> CallQuery p mn mx \<in> set evs"
  by (auto simp: queryOriginsTail_def split: if_splits option.splits)

lemma queryOrigins_CallQuery:
  assumes "CallQuery p mn mx \<in> set (fst (queryOrigins pathParam bound Query))"
  shows "p = Clean pathParam \<and> \<not> HasSuffix (Clean pathParam) ''/''"
proof -
  have ns: "\<not> HasSuffix (Clean pathParam) ''/''"
    using assms by (auto simp: queryOrigins_def Let_def)
  have "p = Clean pathParam"
    using assms ns Clean_nonempty [of pathParam]
    by (auto simp: queryOrigins_def Let_def split: option.splits prod.splits if_splits
          dest!: queryOriginsTail_CallQuery)
  with ns show ?thesis by simp
qed

text \<open>
  Claim C6, as stated, at the path parameter \<^verbatim>\<open>/ns/obj/\<close>, which ends in a
  slash, and at the empty parameter: \<^verbatim>\<open>path.Clean\<close> runs before the check and
  turns them into \<^verbatim>\<open>/ns/obj\<close> and \<^verbatim>\<open>.\<close>, so neither is rejected and
  \<^verbatim>\<open>Query\<close> is invoked.
\<close>

theorem queryOrigins_trailing_slash_counterexample:
  "HasSuffix ''/ns/obj/'' ''/''
   \<and> queryOrigins ''/ns/obj/'' (Some \<lparr>MinResponses = 1, MaxResponses = 1\<rparr>)
        (\<lambda>p mn mx. ([''meta1''], ''ok'', None))
      = ([CallQuery ''/ns/obj'' 1 1,
          WriteJSON StatusOK (Stat \<lparr>OK = True, Message = ''ok'', Metadata = [''meta1'']\<rparr>)],
         Returned)
   \<and> queryOrigins [] (Some \<lparr>MinResponses = 1, MaxResponses = 1\<rparr>)
        (\<lambda>p mn mx. ([''meta1''], ''ok'', None))
      = ([CallQuery ''.'' 1 1,
          WriteJSON StatusOK (Stat \<lparr>OK = True, Message = ''ok'', Metadata = [''meta1'']\<rparr>)],
         Returned)"
  by (simp add: queryOrigins_def queryOriginsTail_def Clean_def HasSuffix_def backtrack.simps)

text \<open>
  Claim C6, amended: the check is made on the cleaned path.  A request whose
  cleaned path (\<^verbatim>\<open>path.Clean\<close> of the parameter) ends in a slash, which is
  the case exactly when the cleaned path is the root \<^verbatim>\<open>/\<close>, is rejected with
  a 400 validation response and \<^verbatim>\<open>Query\<close> is not invoked; and whenever
  \<^verbatim>\<open>Query\<close> is invoked, its path argument is the cleaned path, which is
  non-empty and not slash-terminated.
\<close>

theorem queryOrigins_path_validation:
  "(HasSuffix (Clean pathParam) ''/'' \<longrightarrow>
      Clean pathParam = ''/'' \<and>
      queryOrigins pathParam bound Query =
        ([WriteJSON StatusBadRequest
            (Simple \<lparr>SimpleApiResp.Status = RespFailed,
               Msg = Text (''Path should not be empty or ended with slash '' @ [CHR 0x27, CHR ''/'', CHR 0x27])\<rparr>)],
         Returned))
   \<and> (CallQuery p mn mx \<in> set (fst (queryOrigins pathParam bound Query)) \<longrightarrow>
        p = Clean pathParam \<and> p \<noteq> [] \<and> \<not> HasSuffix p ''/'')"
proof (intro conjI impI)
  assume h: "HasSuffix (Clean pathParam) ''/''"
  from Clean_slash [OF h] show "Clean pathParam = ''/''" .
  from queryOrigins_rejected [OF Clean_slash [OF h]]
  show "queryOrigins pathParam bound Query =
        ([WriteJSON StatusBadRequest
            (Simple \<lparr>SimpleApiResp.Status = RespFailed,
               Msg = Text (''Path should not be empty or ended with slash '' @ [CHR 0x27, CHR ''/'', CHR 0x27])\<rparr>)],
         Returned)" .
next
  assume c: "CallQuery p mn mx \<in> set (fst (queryOrigins pathParam bound Query))"
  from queryOrigins_CallQuery [OF c] show "p = Clean pathParam" by simp
  from queryOrigins_CallQuery [OF c] Clean_nonempty [of pathParam] show "p \<noteq> []" by simp
  from queryOrigins_CallQuery [OF c] show "\<not> HasSuffix p ''/''" by simp
qed

theorem queryOrigins_path_validation_witness:
  "queryOrigins ''/a/..//'' (Some \<lparr>MinResponses = 1, MaxResponses = 1\<rparr>)
        (\<lambda>p mn mx. ([''meta1''], ''ok'', None))
      = ([WriteJSON StatusBadRequest
            (Simple \<lparr>SimpleApiResp.Status = RespFailed,
               Msg = Text (''Path should not be empty or ended with slash '' @ [CHR 0x27, CHR ''/'', CHR 0x27])\<rparr>)],
         Returned)
   \<and> \<not> HasSuffix ''/ns/obj'' ''/''"
proof -
  have c1: "Clean ''/a/..//'' = ''/''"
    by (simp add: Clean_def backtrack.simps)
  have c2: "Clean ''/ns/obj/'' = ''/ns/obj''"
    by (simp add: Clean_def backtrack.simps)
  have s1: "HasSuffix (Clean ''/a/..//'') ''/''"
    by (simp add: c1 HasSuffix_def)
  have q: "CallQuery ''/ns/obj'' 1 1 \<in> set (fst (queryOrigins ''/ns/obj/''
             (Some \<lparr>MinResponses = 1, MaxResponses = 1\<rparr>) (\<lambda>p mn mx. ([''meta1''], ''ok'', None))))"
    by (simp add: queryOrigins_def queryOriginsTail_def c2 HasSuffix_def)
  have r1: "queryOrigins ''/a/..//'' (Some \<lparr>MinResponses = 1, MaxResponses = 1\<rparr>)
        (\<lambda>p mn mx. ([''meta1''], ''ok'', None))
      = ([WriteJSON StatusBadRequest
            (Simple \<lparr>SimpleApiResp.Status = RespFailed,
               Msg = Text (''Path should not be empty or ended with slash '' @ [CHR 0x27, CHR ''/'', CHR 0x27])\<rparr>)],
         Returned)"
    using queryOrigins_path_validation
            [where pathParam = "''/a/..//''" and bound = "Some \<lparr>MinResponses = 1, MaxResponses = 1\<rparr>"
               and Query = "\<lambda>p mn mx. ([''meta1''], ''ok'', None)" and p = "[]" and mn = 0 and mx = 0]
          s1
    by blast
  have r2: "\<not> HasSuffix ''/ns/obj'' ''/''"
    using queryOrigins_path_validation
            [where pathParam = "''/ns/obj/''" and bound = "Some \<lparr>MinResponses = 1, MaxResponses = 1\<rparr>"
               and Query = "\<lambda>p mn mx. ([''meta1''], ''ok'', None)" and p = "''/ns/obj''" and mn = 1 and mx = 1]
          q
    by blast
  from r1 r2 show ?thesis by (rule conjI)
qed

text \<open>
  Claim C4 at a query that returns one result and \<^verbatim>\<open>InsufficientResError\<close>
  (one success, \<^verbatim>\<open>min_responses = 2\<close>): the branch writes the 200 response
  with \<^verbatim>\<open>ok = false\<close> and does not return; the handler goes on and writes a
  second 200 response with \<^verbatim>\<open>ok = true\<close>.
\<close>

theorem queryOrigins_insufficient_two_responses:
  "queryOrigins ''/ns/obj'' (Some \<lparr>MinResponses = 2, MaxResponses = 3\<rparr>)
        (\<lambda>p mn mx. ([''meta1''], ''partial'', Some InsufficientResError))
      = ([CallQuery ''/ns/obj'' 2 3,
          WriteJSON StatusOK (Stat \<lparr>OK = False, Message = ''partial'', Metadata = [''meta1'']\<rparr>),
          WriteJSON StatusOK (Stat \<lparr>OK = True, Message = ''partial'', Metadata = [''meta1'']\<rparr>)],
         Returned)"
  by (simp add: queryOrigins_def queryOriginsTail_def Clean_def HasSuffix_def backtrack.simps)

text \<open>
  Claim C5 at the two kinds of query with an empty metadata list: with
  \<^verbatim>\<open>InsufficientResError\<close> the handler answers 404; with no error it writes
  no response at all and panics.
\<close>

theorem queryOrigins_zero_results:
  "queryOrigins ''/ns/obj'' (Some \<lparr>MinResponses = 1, MaxResponses = 1\<rparr>)
        (\<lambda>p mn mx. ([] :: string list, ''none'', Some InsufficientResError))
      = ([CallQuery ''/ns/obj'' 1 1,
          WriteJSON StatusNotFound
            (Simple \<lparr>SimpleApiResp.Status = RespFailed,
               Msg = Text (''none'' @
                 '' If no object is available, please check if the object is in a public namespace.'')\<rparr>)],
         Returned)
   \<and> queryOrigins ''/ns/obj'' (Some \<lparr>MinResponses = 1, MaxResponses = 1\<rparr>)
        (\<lambda>p mn mx. ([] :: string list, ''none'', None))
      = ([CallQuery ''/ns/obj'' 1 1], Panicked)"
  by (simp add: queryOrigins_def queryOriginsTail_def Clean_def HasSuffix_def backtrack.simps)

text \<open>
  Claim C9 on the branch it names: whenever the path passes validation, the
  query parameters bind and \<^verbatim>\<open>Query\<close> returns a nil error with an empty
  metadata list, the handler evaluates \<^verbatim>\<open>err.Error()\<close> on the nil error and
  panics before any response is written.
\<close>

theorem queryOrigins_nil_error_panics:
  assumes "\<not> HasSuffix (Clean pathParam) ''/''"
    and "Query (Clean pathParam) (MinResponses qp) (MaxResponses qp) = ([], msg, None)"
  shows "queryOrigins pathParam (Some qp) Query
           = ([CallQuery (Clean pathParam) (MinResponses qp) (MaxResponses qp)], Panicked)"
  using assms Clean_nonempty [of pathParam]
  by (simp add: queryOrigins_def queryOriginsTail_def)

theorem queryOrigins_nil_error_panics_witness:
  "queryOrigins ''/data/file.txt'' (Some \<lparr>MinResponses = 1, MaxResponses = 2\<rparr>)
        (\<lambda>p mn mx. ([] :: nat list, [], None))
      = ([CallQuery ''/data/file.txt'' 1 2], Panicked)"
proof -
  have c: "Clean ''/data/file.txt'' = ''/data/file.txt''"
    by (simp add: Clean_def backtrack.simps)
  have s: "\<not> HasSuffix (Clean ''/data/file.txt'') ''/''"
    by (simp add: c HasSuffix_def)
  show ?thesis
    using queryOrigins_nil_error_panics
            [where pathParam = "''/data/file.txt''" and qp = "\<lparr>MinResponses = 1, MaxResponses = 2\<rparr>"
               and Query = "\<lambda>p mn mx. ([] :: nat list, [], None)" and msg = "[]", OF s]
    by (simp add: c)
qed

section \<open>Results on \<^verbatim>\<open>listServers\<close>\<close>

text \<open>
  Claim C10 at the query value \<^verbatim>\<open>Origin\<close>, with one origin advertised (URLs
  given by their strings, the zero URL being the empty one): the
  validation accepts the value, \<^verbatim>\<open>ToInternalServerType\<close> maps it to the empty
  type, and the listing is empty; the value \<^verbatim>\<open>origin\<close> lists the server.
\<close>

theorem listServers_capitalised_type_empty:
  "EqualFold ''Origin'' OriginType
   \<and> ToInternalServerType \<lparr>ServerType = ''Origin''\<rparr> = []
   \<and> listServers [] (\<lambda>u. u) (Some \<lparr>ServerType = ''Origin''\<rparr>)
        [\<lparr>ServerAd = \<lparr>Name = ''origin1'', AuthURL = [], BrokerURL = [],
              URL = ''https://origin1.example:8443'', WebURL = ''https://origin1.example:8444'',
              Type = OriginType, Latitude = (43::int), Longitude = -89,
              Writes = False, DirectReads = True, Listings = True\<rparr>,
           NamespaceAds = [\<lparr>Path = ''/ns''\<rparr>]\<rparr>]
        Map.empty (\<lambda>s. False) Map.empty
      = (StatusOK, Listing [])
   \<and> listServers [] (\<lambda>u. u) (Some \<lparr>ServerType = ''origin''\<rparr>)
        [\<lparr>ServerAd = \<lparr>Name = ''origin1'', AuthURL = [], BrokerURL = [],
              URL = ''https://origin1.example:8443'', WebURL = ''https://origin1.example:8444'',
              Type = OriginType, Latitude = (43::int), Longitude = -89,
              Writes = False, DirectReads = True, Listings = True\<rparr>,
           NamespaceAds = [\<lparr>Path = ''/ns''\<rparr>]\<rparr>]
        Map.empty (\<lambda>s. False) Map.empty
      = (StatusOK,
         Listing [\<lparr>name = ''origin1'', authUrl = ''https://origin1.example:8443'', brokerUrl = [],
            url = ''https://origin1.example:8443'', webUrl = ''https://origin1.example:8444'',
            type = OriginType, latitude = 43, longitude = -89,
            enableWrite = False, enableFallbackRead = True, enableListing = True,
            filtered = False, filteredType = noReason, status = HealthStatusUnknown,
            namespacePrefixes = [''/ns'']\<rparr>])"
  by (simp add: listServers_def EqualFold_def toLowerASCII_def OriginType_def CacheType_def
        ToInternalServerType_def listAdvertisement_def serverResponse_def isServerDisabled_def
        char_of_def bit_Suc_0_iff)

section \<open>Results on the director test report and its timeout\<close>

lemma resetDirectorTimeoutTimer_ready:
  assumes "timerReady st"
  shows "\<exists>t'. resetDirectorTimeoutTimer now st
            = Some (st\<lparr>directorTimeoutTimer := Some t',
                       loopStarted := (loopStarted st \<or> directorTimeoutTimer st = None)\<rparr>)
          \<and> deadline t' = Some (now + directorTimeoutDuration)"
  using assms
  by (auto simp: timerReady_def resetDirectorTimeoutTimer_def NewTimer_def Stop_def Reset_def
        split: option.splits)

text \<open>
  Claim C7, as stated, at two reports received at second 40.  The first has a
  body that does not bind and arrives while the timer is armed for second 50:
  the handler answers 400 and returns before the timer reset; the state, and
  with it the deadline, is what it was.  The second has the status \<^verbatim>\<open>ok\<close> and
  arrives while the timer has expired and its expiry has already been taken
  from the channel (the timeout loop is between its receive and its reset):
  \<^verbatim>\<open>Stop\<close> reports an expired timer, the receive in the timer reset finds the
  channel empty, and the handler never gets to classify the report.
\<close>

theorem directorTestResponse_malformed_counterexample:
  "directorTestResponse 40 None
     \<lparr>directorTimeoutTimer = Some \<lparr>deadline = Some 50, C = False\<rparr>, loopStarted = True,
      health = Map.empty\<rparr>
   = Some ([ReplyJSON 400 ''Invalid director test response''],
       \<lparr>directorTimeoutTimer = Some \<lparr>deadline = Some 50, C = False\<rparr>, loopStarted = True,
        health = Map.empty\<rparr>)
   \<and> nextExpiry \<lparr>directorTimeoutTimer = Some \<lparr>deadline = Some 50, C = False\<rparr>, loopStarted = True,
        health = Map.empty\<rparr> \<noteq> Some (40 + directorTimeoutDuration)
   \<and> directorTestResponse 40 (Some \<lparr>Status = ''ok'', Message = [], Timestamp = ''t''\<rparr>)
        \<lparr>directorTimeoutTimer = Some \<lparr>deadline = None, C = False\<rparr>, loopStarted = True,
         health = Map.empty\<rparr>
      = None"
  by (simp add: directorTestResponse_def nextExpiry_def directorTimeoutDuration_def
        resetDirectorTimeoutTimer_def Stop_def)

text \<open>
  Claim C7, amended: for every report whose body binds, whatever its status
  value, received in a state in which the timer reset returns (the timer is
  \<^verbatim>\<open>nil\<close>, or still armed, or its expiry waits unreceived in the channel), the
  first thing the handler does is to reset the timer, which is then armed for
  a full timeout from the instant of receipt; only then is the status
  classified.  An unrecognised status value is answered with a 400 response
  after the reset and changes no health status.  A report whose body does not
  bind is answered with 400 and does not reset the timer.
\<close>

theorem directorTestResponse_rearms_first:
  assumes "timerReady st"
  shows "(case directorTestResponse now (Some dt) st of
            None \<Rightarrow> False
          | Some (evs, st') \<Rightarrow>
              hd evs = TimerReset
              \<and> nextExpiry st' = Some (now + directorTimeoutDuration)
              \<and> (Status dt \<noteq> ''ok'' \<and> Status dt \<noteq> ''error'' \<longrightarrow>
                   evs = [TimerReset,
                          ReplyJSON 400 (''Invalid director test response status: '' @ Status dt)]
                   \<and> health st' = health st))
     \<and> directorTestResponse now None st = Some ([ReplyJSON 400 ''Invalid director test response''], st)"
proof -
  from resetDirectorTimeoutTimer_ready [OF assms, of now]
  obtain t' where r: "resetDirectorTimeoutTimer now st
            = Some (st\<lparr>directorTimeoutTimer := Some t',
                       loopStarted := (loopStarted st \<or> directorTimeoutTimer st = None)\<rparr>)"
    and d: "deadline t' = Some (now + directorTimeoutDuration)"
    by blast
  show ?thesis
    by (simp add: directorTestResponse_def r d nextExpiry_def SetComponentHealthStatus_def
          statusOfString_def)
qed

theorem directorTestResponse_rearms_first_witness:
  "directorTestResponse 40 (Some \<lparr>Status = ''degraded'', Message = ''x'', Timestamp = ''t''\<rparr>)
     \<lparr>directorTimeoutTimer = Some \<lparr>deadline = Some 50, C = False\<rparr>, loopStarted = True,
      health = Map.empty\<rparr>
   = Some ([TimerReset, ReplyJSON 400 ''Invalid director test response status: degraded''],
       \<lparr>directorTimeoutTimer = Some \<lparr>deadline = Some 70, C = False\<rparr>, loopStarted = True,
        health = Map.empty\<rparr>)"
proof -
  have rdy: "timerReady \<lparr>directorTimeoutTimer = Some \<lparr>deadline = Some 50, C = False\<rparr>,
      loopStarted = True, health = Map.empty\<rparr>"
    by (simp add: timerReady_def)
  show ?thesis
    using directorTestResponse_rearms_first
            [OF rdy, of 40 "\<lparr>Status = ''degraded'', Message = ''x'', Timestamp = ''t''\<rparr>"]
    by (simp add: directorTestResponse_def resetDirectorTimeoutTimer_def Stop_def Reset_def
          directorTimeoutDuration_def)
qed

lemma timeoutLoopPass_expired:
  assumes "directorTimeoutTimer st = Some t" and "loopStarted st"
  shows "timeoutLoopPass at (st\<lparr>directorTimeoutTimer := Some (expire t)\<rparr>)
         = Some (st\<lparr>health := (health st)(''director'' \<mapsto>
                        \<lparr>healthStatus = Critical,
                         healthMessage = ''No director test report received within the time limit'',
                         lastUpdate = at\<rparr>),
                    directorTimeoutTimer :=
                      Some \<lparr>deadline = Some (at + directorTimeoutDuration), C = False\<rparr>\<rparr>)"
  using assms
  by (simp add: timeoutLoopPass_def expire_def Reset_def SetComponentHealthStatus_def
        statusOfString_def)

lemma expiries_armed:
  "directorTimeoutTimer st = Some t \<Longrightarrow> deadline t = Some a \<Longrightarrow> loopStarted st \<Longrightarrow>
   \<exists>st'. expiries n st = Some st'
     \<and> loopStarted st'
     \<and> directorTimeoutTimer st' = Some (if n = 0 then t
           else \<lparr>deadline = Some (a + n * directorTimeoutDuration), C = False\<rparr>)
     \<and> (0 < n \<longrightarrow> health st' ''director'' =
           Some \<lparr>healthStatus = Critical,
                 healthMessage = ''No director test report received within the time limit'',
                 lastUpdate = a + (n - 1) * directorTimeoutDuration\<rparr>)"
proof (induction n arbitrary: st t a)
  case 0
  then show ?case by simp
next
  case (Suc n)
  define st1 where "st1 = st\<lparr>health := (health st)(''director'' \<mapsto>
                        \<lparr>healthStatus = Critical,
                         healthMessage = ''No director test report received within the time limit'',
                         lastUpdate = a\<rparr>),
                    directorTimeoutTimer :=
                      Some \<lparr>deadline = Some (a + directorTimeoutDuration), C = False\<rparr>\<rparr>"
  have step: "expiries (Suc n) st = expiries n st1"
    using Suc.prems timeoutLoopPass_expired [OF Suc.prems(1) Suc.prems(3), of a]
    by (simp add: st1_def)
  have p1: "directorTimeoutTimer st1 = Some \<lparr>deadline = Some (a + directorTimeoutDuration), C = False\<rparr>"
    by (simp add: st1_def)
  have p2: "deadline \<lparr>deadline = Some (a + directorTimeoutDuration), C = False\<rparr>
              = Some (a + directorTimeoutDuration)"
    by simp
  have p3: "loopStarted st1" using Suc.prems(3) by (simp add: st1_def)
  from Suc.IH [OF p1 p2 p3]
  obtain st' where r: "expiries n st1 = Some st'" "loopStarted st'"
    "directorTimeoutTimer st' = Some (if n = 0
        then \<lparr>deadline = Some (a + directorTimeoutDuration), C = False\<rparr>
        else \<lparr>deadline = Some (a + directorTimeoutDuration + n * directorTimeoutDuration), C = False\<rparr>)"
    "0 < n \<longrightarrow> health st' ''director'' =
           Some \<lparr>healthStatus = Critical,
                 healthMessage = ''No director test report received within the time limit'',
                 lastUpdate = a + directorTimeoutDuration + (n - 1) * directorTimeoutDuration\<rparr>"
    by blast
  have h0: "n = 0 \<Longrightarrow> st' = st1" using r(1) by simp
  have t: "directorTimeoutTimer st'
             = Some \<lparr>deadline = Some (a + Suc n * directorTimeoutDuration), C = False\<rparr>"
    using r(3) by (simp add: add.commute add.left_commute)
  have h: "health st' ''director'' =
           Some \<lparr>healthStatus = Critical,
                 healthMessage = ''No director test report received within the time limit'',
                 lastUpdate = a + (Suc n - 1) * directorTimeoutDuration\<rparr>"
  proof (cases "n = 0")
    case True
    with h0 show ?thesis by (simp add: st1_def)
  next
    case False
    then obtain m where m: "n = Suc m" by (cases n) auto
    from r(4) False show ?thesis by (simp add: m add.commute add.left_commute)
  qed
  from step r(1,2) t h show ?case by simp
qed

text \<open>
  Claim C8: in a run in which no report arrives, starting with the timer armed
  for the instant \<open>a\<close> and the timeout loop started, every one of the next
  \<open>n\<close> expiries is taken by the loop (the run never gets stuck), the \<open>n\<close>-th
  expiry happens at \<open>a + (n - 1) * directorTimeoutDuration\<close> and sets the
  director component critical with the time-limit message at that instant,
  and the timer is armed again for exactly one timeout later.
\<close>

theorem expiry_rearms_every_interval:
  assumes "directorTimeoutTimer st = Some t"
    and "deadline t = Some a"
    and "loopStarted st"
  shows "(case expiries (Suc n) st of
            None \<Rightarrow> False
          | Some st' \<Rightarrow>
              loopStarted st'
              \<and> nextExpiry st' = Some (a + Suc n * directorTimeoutDuration)
              \<and> health st' ''director'' =
                  Some \<lparr>healthStatus = Critical,
                        healthMessage = ''No director test report received within the time limit'',
                        lastUpdate = a + n * directorTimeoutDuration\<rparr>)"
proof -
  from expiries_armed [OF assms, of "Suc n"]
  obtain st' where "expiries (Suc n) st = Some st'" "loopStarted st'"
    "directorTimeoutTimer st' = Some \<lparr>deadline = Some (a + Suc n * directorTimeoutDuration), C = False\<rparr>"
    "health st' ''director'' =
           Some \<lparr>healthStatus = Critical,
                 healthMessage = ''No director test report received within the time limit'',
                 lastUpdate = a + n * directorTimeoutDuration\<rparr>"
    by auto
  then show ?thesis by (simp add: nextExpiry_def)
qed

theorem expiry_rearms_every_interval_witness:
  "(case expiries 3 \<lparr>directorTimeoutTimer = Some \<lparr>deadline = Some 30, C = False\<rparr>,
                      loopStarted = True, health = Map.empty\<rparr> of
      None \<Rightarrow> False
    | Some st' \<Rightarrow>
        loopStarted st' \<and> nextExpiry st' = Some 120
        \<and> health st' ''director'' =
            Some \<lparr>healthStatus = Critical,
                  healthMessage = ''No director test report received within the time limit'',
                  lastUpdate = 90\<rparr>)"
proof -
  have a1: "directorTimeoutTimer \<lparr>directorTimeoutTimer = Some \<lparr>deadline = Some 30, C = False\<rparr>,
                      loopStarted = True, health = Map.empty\<rparr> = Some \<lparr>deadline = Some 30, C = False\<rparr>"
    by simp
  have a2: "deadline \<lparr>deadline = Some 30, C = False\<rparr> = Some 30" by simp
  have a3: "loopStarted \<lparr>directorTimeoutTimer = Some \<lparr>deadline = Some 30, C = False\<rparr>,
                      loopStarted = True, health = Map.empty\<rparr>"
    by simp
  show ?thesis
    using expiry_rearms_every_interval [OF a1 a2 a3, of 2]
    by (simp add: directorTimeoutDuration_def numeral_3_eq_3 timeoutLoopPass_def expire_def
          Reset_def SetComponentHealthStatus_def statusOfString_def nextExpiry_def)
qed


end
